theory Spec2Isabelle
  imports Main
begin

section \<open>Embedding of \<open>csv.hpp\<close> (class \<open>basic_csv<char>\<close>)\<close>

text \<open>
  The class \<open>basic_csv\<close> keeps a separator character, a header row and a vector of rows;
  all cells are strings. Every failure the class reports is a \<open>std::runtime_error\<close>; the
  model tells the three messages apart by a constructor each. Two places of the source
  read a vector outside its bounds (\<open>m_rows.back()\<close> on an empty vector in \<open>add_row\<close>,
  \<open>line[0]\<close> on an empty row in \<open>write_line\<close>) and one counts with an \<open>int\<close>; these are
  undefined behaviour in C++, not exceptions, and the model gives them values of their own.
  Sizes and indices of type \<open>size_t\<close> are natural numbers: the code compares them and
  adds one to a count of characters of a string held in memory, which cannot wrap.
\<close>

type_synonym string_t = string
type_synonym row_t = "string_t list"

datatype error =
    IOError string
      \<comment> \<open>\<open>"basic_csv::load/save: could not open file <name>"\<close>\<close>
  | SizeMismatch "nat option" nat nat
      \<comment> \<open>\<open>"row[<idx>] has different size than header ( <a> != <b> )"\<close>: the row index
          (absent in the message of \<open>add_row\<close>), the size printed first, the header size\<close>
  | OutOfRange nat
      \<comment> \<open>\<open>"basic_csv::row: index (<idx>) out of bounds."\<close>\<close>
  | OutOfBoundsAccess
      \<comment> \<open>undefined behaviour: \<open>back()\<close> or \<open>[0]\<close> on an empty vector\<close>
  | SignedOverflow
      \<comment> \<open>undefined behaviour: \<open>i++\<close> on an \<open>int\<close> holding \<open>INT_MAX\<close>\<close>

record csv =
  m_separator :: char
  m_header :: row_t
  m_rows :: "row_t list"

abbreviation newline :: char where
  "newline \<equiv> CHR 0x0A"

subsection \<open>Construction, options, header, rows\<close>

definition basic_csv :: csv where
  "basic_csv = \<lparr>m_separator = CHR '','', m_header = [], m_rows = []\<rparr>"

definition basic_csv_sep :: "char \<Rightarrow> csv" where
  "basic_csv_sep separator = \<lparr>m_separator = separator, m_header = [], m_rows = []\<rparr>"

text \<open>\<open>reserve\<close> only changes the capacity of the vector, which no accessor shows.\<close>

definition reserve :: "csv \<Rightarrow> nat \<Rightarrow> csv" where
  "reserve t row_count = t"

text \<open>\<open>clear\<close>: the header, then every row in place, then the row container.\<close>

definition clear :: "csv \<Rightarrow> csv" where
  "clear t =
     (let t1 = t\<lparr>m_header := []\<rparr>;
          t2 = t1\<lparr>m_rows := map (\<lambda>r. []) (m_rows t1)\<rparr>
      in t2\<lparr>m_rows := []\<rparr>)"

definition set_header :: "csv \<Rightarrow> row_t \<Rightarrow> csv" where
  "set_header t columns_names = t\<lparr>m_header := columns_names\<rparr>"

definition header :: "csv \<Rightarrow> row_t" where
  "header t = m_header t"

text \<open>
  The mutating operations return the outcome (\<open>None\<close>: returned normally, \<open>Some e\<close>: threw
  \<open>e\<close>) together with the object as the call leaves it. In \<open>add_row\<close> the message of the
  exception is built before anything is thrown, and it reads \<open>m_rows.back()\<close>.
\<close>

definition add_row :: "csv \<Rightarrow> row_t \<Rightarrow> error option \<times> csv" where
  "add_row t row =
     (if length row \<noteq> length (m_header t) then
        (if m_rows t = [] then (Some OutOfBoundsAccess, t)
         else (Some (SizeMismatch None (length (last (m_rows t))) (length (m_header t))), t))
      else (None, t\<lparr>m_rows := m_rows t @ [row]\<rparr>))"

definition row :: "csv \<Rightarrow> nat \<Rightarrow> error + row_t" where
  "row t idx =
     (if idx \<ge> length (m_rows t) then Inl (OutOfRange idx)
      else Inr (m_rows t ! idx))"

definition rows :: "csv \<Rightarrow> row_t list" where
  "rows t = m_rows t"

subsection \<open>Input streams\<close>

text \<open>
  An input stream (\<open>std::ifstream\<close> opened in binary mode, or the \<open>std::stringstream\<close> of
  \<open>read_line\<close>) is its byte sequence, the read position and the two state bits the code
  depends on.
\<close>

record istream =
  content :: string
  gpos :: nat
  eofbit :: bool
  failbit :: bool

definition good :: "istream \<Rightarrow> bool" where
  "good s \<longleftrightarrow> \<not> eofbit s \<and> \<not> failbit s"

definition stream_of :: "string \<Rightarrow> istream" where
  "stream_of bytes = \<lparr>content = bytes, gpos = 0, eofbit = False, failbit = False\<rparr>"

text \<open>\<open>file.clear()\<close> of \<open>std::basic_ios\<close>: resets the state bits.\<close>

definition clear_state :: "istream \<Rightarrow> istream" where
  "clear_state s = s\<lparr>eofbit := False, failbit := False\<rparr>"

text \<open>
  \<open>seekg(0, std::ios::beg)\<close> (C++11, which the range-based loops of the source require):
  clears \<open>eofbit\<close> first, and moves the position only when the stream has not failed.
\<close>

definition seekg_beg :: "istream \<Rightarrow> istream" where
  "seekg_beg s =
     (let s1 = s\<lparr>eofbit := False\<rparr>
      in if failbit s1 then s1 else s1\<lparr>gpos := 0\<rparr>)"

text \<open>
  \<open>std::getline(is, str, delim)\<close>: on a stream that is not good the sentry fails, \<open>failbit\<close>
  is set and \<open>str\<close> is left as it is. Otherwise \<open>str\<close> is erased and characters are moved
  into it up to the delimiter, which is consumed and dropped, or up to the end of the
  input, which sets \<open>eofbit\<close>, and also \<open>failbit\<close> when nothing at all was extracted.
\<close>

definition getline :: "istream \<Rightarrow> string \<Rightarrow> char \<Rightarrow> string \<times> istream" where
  "getline s str delim =
     (if \<not> good s then (str, s\<lparr>failbit := True\<rparr>)
      else
        (let rest = drop (gpos s) (content s);
             taken = takeWhile (\<lambda>c. c \<noteq> delim) rest
         in if length taken = length rest
            then (taken, s\<lparr>gpos := length (content s), eofbit := True,
                           failbit := (taken = [])\<rparr>)
            else (taken, s\<lparr>gpos := gpos s + length taken + 1\<rparr>)))"

text \<open>
  \<open>std::count(std::istream_iterator<Ch>(file), std::istream_iterator<Ch>(), c)\<close> with
  \<open>skipws\<close> unset: every remaining character is read and compared; the read that finds
  the end of the input sets both state bits.
\<close>

definition count_istream :: "istream \<Rightarrow> char \<Rightarrow> nat \<times> istream" where
  "count_istream s c =
     (if \<not> good s then (0, s\<lparr>failbit := True\<rparr>)
      else (count_list (drop (gpos s) (content s)) c,
            s\<lparr>gpos := length (content s), eofbit := True, failbit := True\<rparr>))"

subsection \<open>\<open>read_line\<close>\<close>

text \<open>The loop \<open>for (col = 0; col < column_count; col++) getline(line_ss, row[col], sep)\<close>;
  the row under construction is \<open>cells\<close> here, \<open>row\<close> being the accessor above.\<close>

function read_fields :: "char \<Rightarrow> istream \<Rightarrow> row_t \<Rightarrow> nat \<Rightarrow> nat \<Rightarrow> row_t" where
  "read_fields sep line_ss cells col column_count =
     (if col < column_count then
        (let (field, line_ss') = getline line_ss (cells ! col) sep
         in read_fields sep line_ss' (cells[col := field]) (Suc col) column_count)
      else cells)"
  by pat_completeness auto
termination
  by (relation "measure (\<lambda>(sep, line_ss, cells, col, column_count). column_count - col)") auto

declare read_fields.simps [simp del]

definition read_line :: "char \<Rightarrow> istream \<Rightarrow> nat \<Rightarrow> row_t \<times> istream" where
  "read_line sep file column_count =
     (let (line, file') = getline file [] newline;
          line_ss = seekg_beg (stream_of line);
          cells = replicate column_count []
      in (read_fields sep line_ss cells 0 column_count, file'))"

subsection \<open>\<open>load\<close>\<close>

text \<open>
  The file system, as far as \<open>load\<close> and \<open>save\<close> see it: the content of the files that
  can be opened for reading, and whether a path can be opened for writing.
\<close>

record filesystem =
  files :: "string \<rightharpoonup> string"
  creatable :: "string \<Rightarrow> bool"

text \<open>Lines 183 to 185: the column count, from the first line.\<close>

definition count_columns :: "char \<Rightarrow> istream \<Rightarrow> nat \<times> istream" where
  "count_columns sep file =
     (let file1 = seekg_beg file;
          (temp, file2) = getline file1 [] newline
      in ((if length temp > 0 then count_list temp sep + 1 else 0), file2))"

text \<open>Lines 193 to 202: the loop over the rows, with its size check.\<close>

function load_rows :: "nat \<Rightarrow> nat \<Rightarrow> nat \<Rightarrow> csv \<Rightarrow> istream \<Rightarrow> error option \<times> csv" where
  "load_rows column_count row_idx row_count t file =
     (if row_idx < row_count then
        (let (r, file') = read_line (m_separator t) file column_count;
             t' = t\<lparr>m_rows := m_rows t @ [r]\<rparr>
         in if length (last (m_rows t')) \<noteq> length (m_header t')
            then (Some (SizeMismatch (Some row_idx) (length (last (m_rows t')))
                          (length (m_header t'))), t')
            else load_rows column_count (Suc row_idx) row_count t' file')
      else (None, t))"
  by pat_completeness auto
termination
  by (relation "measure (\<lambda>(column_count, row_idx, row_count, t, file). row_count - row_idx)") auto

declare load_rows.simps [simp del]

definition load :: "csv \<Rightarrow> filesystem \<Rightarrow> string \<Rightarrow> error option \<times> csv" where
  "load t fs filename =
     (case files fs filename of
        None \<Rightarrow> (Some (IOError filename), t)
      | Some bytes \<Rightarrow>
          (let file = stream_of bytes;
               (row_count, file) = count_istream file newline;
               file = clear_state file;
               (column_count, file) = count_columns (m_separator t) file;
               file = seekg_beg file;
               (hdr, file) = read_line (m_separator t) file column_count;
               t = t\<lparr>m_header := hdr\<rparr>;
               t = reserve t row_count
           in load_rows column_count 0 row_count t file))"

subsection \<open>\<open>save\<close>\<close>

text \<open>
  An output stream is the bytes written so far. \<open>write_line\<close> writes \<open>line[0]\<close> without
  looking at the size of the row, then counts the other fields with an \<open>int\<close>.
\<close>

function write_fields :: "char \<Rightarrow> string \<Rightarrow> row_t \<Rightarrow> nat \<Rightarrow> error + string" where
  "write_fields sep file line i =
     (if i < length line then
        (let file' = file @ [sep] @ line ! i
         in if i = 2147483647 then Inl SignedOverflow
            else write_fields sep file' line (Suc i))
      else Inr file)"
  by pat_completeness auto
termination
  by (relation "measure (\<lambda>(sep, file, line, i). length line - i)") auto

declare write_fields.simps [simp del]

definition write_line :: "char \<Rightarrow> string \<Rightarrow> row_t \<Rightarrow> error + string" where
  "write_line sep file line =
     (if line = [] then Inl OutOfBoundsAccess
      else
        (case write_fields sep (file @ line ! 0) line 1 of
           Inl e \<Rightarrow> Inl e
         | Inr file' \<Rightarrow> Inr (file' @ [newline])))"

fun write_rows :: "char \<Rightarrow> string \<Rightarrow> row_t list \<Rightarrow> error + string" where
  "write_rows sep file [] = Inr file"
| "write_rows sep file (r # rest) =
     (case write_line sep file r of
        Inl e \<Rightarrow> Inl e
      | Inr file' \<Rightarrow> write_rows sep file' rest)"

definition save :: "csv \<Rightarrow> filesystem \<Rightarrow> string \<Rightarrow> error option \<times> filesystem" where
  "save t fs filename =
     (if \<not> creatable fs filename then (Some (IOError filename), fs)
      else
        (case write_line (m_separator t) [] (m_header t) of
           Inl e \<Rightarrow> (Some e, fs\<lparr>files := (files fs)(filename \<mapsto> [])\<rparr>)
         | Inr file \<Rightarrow>
             (case write_rows (m_separator t) file (m_rows t) of
                Inl e \<Rightarrow> (Some e, fs\<lparr>files := (files fs)(filename \<mapsto> file)\<rparr>)
              | Inr file' \<Rightarrow> (None, fs\<lparr>files := (files fs)(filename \<mapsto> file')\<rparr>))))"

subsection \<open>Notions used in the statements\<close>

text \<open>
  The first line of a file, as \<open>std::getline\<close> sees it in binary mode: the bytes before the
  first newline character, or all of them when there is none.
\<close>

definition first_line :: "string \<Rightarrow> string" where
  "first_line bytes = takeWhile (\<lambda>c. c \<noteq> newline) bytes"

text \<open>
  The stream of \<open>load\<close> after lines 177 to 180: the newline characters have been counted
  and the state bits cleared.
\<close>

definition counted :: "string \<Rightarrow> istream" where
  "counted bytes = clear_state (snd (count_istream (stream_of bytes) newline))"

section \<open>Properties of the embedding\<close>

subsection \<open>\<open>read_line\<close> always fills \<open>column_count\<close> fields\<close>

lemma getline_not_good: "\<not> good s \<Longrightarrow> getline s str delim = (str, s\<lparr>failbit := True\<rparr>)"
  by (simp add: getline_def)

lemma length_read_fields:
  "length (read_fields sep line_ss cells col n) = length cells"
proof (induction sep line_ss cells col n rule: read_fields.induct)
  case (1 sep line_ss cells col n)
  show ?case
  proof (cases "col < n")
    case True
    obtain field line_ss' where g: "getline line_ss (cells ! col) sep = (field, line_ss')"
      by (cases "getline line_ss (cells ! col) sep")
    have "read_fields sep line_ss cells col n
            = read_fields sep line_ss' (cells[col := field]) (Suc col) n"
      using True g by (subst read_fields.simps) simp
    moreover have "length (read_fields sep line_ss' (cells[col := field]) (Suc col) n)
            = length (cells[col := field])"
      using "1.IH" [OF True refl g [symmetric]] .
    ultimately show ?thesis by simp
  next
    case False
    then show ?thesis by (subst read_fields.simps) simp
  qed
qed

lemma length_read_line: "length (fst (read_line sep file n)) = n"
  by (simp add: read_line_def Let_def length_read_fields split: prod.splits)

lemma read_fields_not_good:
  "\<not> good line_ss \<Longrightarrow> read_fields sep line_ss cells col n = cells"
proof (induction sep line_ss cells col n rule: read_fields.induct)
  case (1 sep line_ss cells col n)
  show ?case
  proof (cases "col < n")
    case True
    have g: "getline line_ss (cells ! col) sep = (cells ! col, line_ss\<lparr>failbit := True\<rparr>)"
      using "1.prems" by (rule getline_not_good)
    have ng: "\<not> good (line_ss\<lparr>failbit := True\<rparr>)"
      by (simp add: good_def)
    have "read_fields sep line_ss cells col n
            = read_fields sep (line_ss\<lparr>failbit := True\<rparr>) (cells[col := cells ! col]) (Suc col) n"
      using True g by (subst read_fields.simps) simp
    also have "\<dots> = cells[col := cells ! col]"
      using "1.IH" [OF True refl g [symmetric] ng] .
    finally show ?thesis by simp
  next
    case False
    then show ?thesis by (subst read_fields.simps) simp
  qed
qed

text \<open>
  A successful \<open>getline\<close> that stops at the separator leaves one separator less in the
  stream; one that stops at the end of the input leaves a stream that is not good.
\<close>

lemma count_list_takeWhile_neq: "count_list (takeWhile (\<lambda>c. c \<noteq> d) xs) d = 0"
  by (induction xs) auto

lemma drop_after_takeWhile:
  assumes "length (takeWhile (\<lambda>c. c \<noteq> d) xs) \<noteq> length xs"
  shows "count_list xs d = Suc (count_list (drop (length (takeWhile (\<lambda>c. c \<noteq> d) xs) + 1) xs) d)"
  using assms by (induction xs) auto

lemma read_fields_untouched:
  "col + count_list (drop (gpos line_ss) (content line_ss)) sep < j \<Longrightarrow>
   read_fields sep line_ss cells col n ! j = cells ! j"
proof (induction sep line_ss cells col n arbitrary: j rule: read_fields.induct)
  case (1 sep line_ss cells col n)
  show ?case
  proof (cases "col < n")
    case False
    then show ?thesis by (subst read_fields.simps) simp
  next
    case True
    note lt = True
    show ?thesis
    proof (cases "good line_ss")
      case False
      then show ?thesis by (simp add: read_fields_not_good)
    next
      case True
      let ?rest = "drop (gpos line_ss) (content line_ss)"
      let ?taken = "takeWhile (\<lambda>c. c \<noteq> sep) ?rest"
      show ?thesis
      proof (cases "length ?taken = length ?rest")
        case True
        let ?s' = "line_ss\<lparr>gpos := length (content line_ss), eofbit := True,
                           failbit := (?taken = [])\<rparr>"
        have g: "getline line_ss (cells ! col) sep = (?taken, ?s')"
          using \<open>good line_ss\<close> True by (simp add: getline_def Let_def)
        have ng: "\<not> good ?s'" by (simp add: good_def)
        have "read_fields sep line_ss cells col n
                = read_fields sep ?s' (cells[col := ?taken]) (Suc col) n"
          using lt g by (subst read_fields.simps) simp
        also have "\<dots> = cells[col := ?taken]"
          using ng by (rule read_fields_not_good)
        finally show ?thesis using "1.prems" by simp
      next
        case False
        let ?s' = "line_ss\<lparr>gpos := gpos line_ss + length ?taken + 1\<rparr>"
        have g: "getline line_ss (cells ! col) sep = (?taken, ?s')"
          using \<open>good line_ss\<close> False by (simp add: getline_def Let_def)
        have cnt: "count_list ?rest sep
                     = Suc (count_list (drop (gpos ?s') (content ?s')) sep)"
          using drop_after_takeWhile [OF False] by (simp add: add.commute add.left_commute)
        have step: "read_fields sep line_ss cells col n
                = read_fields sep ?s' (cells[col := ?taken]) (Suc col) n"
          using lt g by (subst read_fields.simps) simp
        have "Suc col + count_list (drop (gpos ?s') (content ?s')) sep < j"
          using "1.prems" cnt by simp
        then have "read_fields sep ?s' (cells[col := ?taken]) (Suc col) n ! j
                     = (cells[col := ?taken]) ! j"
          by (rule "1.IH" [OF lt refl g [symmetric]])
        then show ?thesis using step "1.prems" by simp
      qed
    qed
  qed
qed

lemma read_line_padding:
  assumes "count_list (fst (getline file [] newline)) sep < j" and "j < n"
  shows "fst (read_line sep file n) ! j = []"
proof -
  obtain line file' where g: "getline file [] newline = (line, file')"
    by (cases "getline file [] newline")
  have "fst (read_line sep file n)
          = read_fields sep (seekg_beg (stream_of line)) (replicate n []) 0 n"
    using g by (simp add: read_line_def Let_def)
  moreover have "read_fields sep (seekg_beg (stream_of line)) (replicate n []) 0 n ! j
          = replicate n [] ! j"
    using assms(1) g
    by (intro read_fields_untouched) (simp add: seekg_beg_def stream_of_def Let_def)
  ultimately show ?thesis using assms(2) by simp
qed

subsection \<open>The row loop of \<open>load\<close>\<close>

text \<open>
  Since \<open>read_line\<close> returns \<open>column_count\<close> fields and the header was read with the
  same \<open>column_count\<close>, the size check of the loop never fails: every iteration appends
  one row and goes on.
\<close>

lemma load_rows_stop:
  "\<not> row_idx < row_count \<Longrightarrow> load_rows column_count row_idx row_count t ifs = (None, t)"
  by (subst load_rows.simps) simp

lemma load_rows_step:
  assumes "row_idx < row_count" and "length (m_header t) = column_count"
  shows "load_rows column_count row_idx row_count t ifs
           = load_rows column_count (Suc row_idx) row_count
               (t\<lparr>m_rows := m_rows t @ [fst (read_line (m_separator t) ifs column_count)]\<rparr>)
               (snd (read_line (m_separator t) ifs column_count))"
proof -
  obtain r ifs' where rl: "read_line (m_separator t) ifs column_count = (r, ifs')"
    by (cases "read_line (m_separator t) ifs column_count")
  have "length r = column_count"
    using length_read_line [of "m_separator t" ifs column_count] rl by simp
  then show ?thesis
    using assms rl by (subst load_rows.simps) (simp add: Let_def)
qed

lemma load_rows_returns:
  "length (m_header t) = column_count \<Longrightarrow>
   fst (load_rows column_count row_idx row_count t ifs) = None"
proof (induction "row_count - row_idx" arbitrary: row_idx t ifs)
  case 0
  then show ?case by (simp add: load_rows_stop)
next
  case (Suc k)
  then have lt: "row_idx < row_count" and k: "k = row_count - Suc row_idx"
    by simp_all
  show ?case
    unfolding load_rows_step [OF lt Suc.prems]
    by (rule Suc.hyps(1) [OF k]) (simp add: Suc.prems)
qed

lemma load_rows_header:
  "length (m_header t) = column_count \<Longrightarrow>
   m_header (snd (load_rows column_count row_idx row_count t ifs)) = m_header t
   \<and> m_separator (snd (load_rows column_count row_idx row_count t ifs)) = m_separator t"
proof (induction "row_count - row_idx" arbitrary: row_idx t ifs)
  case 0
  then show ?case by (simp add: load_rows_stop)
next
  case (Suc k)
  then have lt: "row_idx < row_count" and k: "k = row_count - Suc row_idx"
    by simp_all
  let ?t' = "t\<lparr>m_rows := m_rows t @ [fst (read_line (m_separator t) ifs column_count)]\<rparr>"
  have "length (m_header ?t') = column_count"
    using Suc.prems by simp
  from Suc.hyps(1) [OF k this]
  show ?case
    unfolding load_rows_step [OF lt Suc.prems] by simp
qed

lemma load_rows_rows:
  "length (m_header t) = column_count \<Longrightarrow>
   \<exists>rs. m_rows (snd (load_rows column_count row_idx row_count t ifs)) = m_rows t @ rs
        \<and> length rs = row_count - row_idx
        \<and> (\<forall>r \<in> set rs. length r = column_count)"
proof (induction "row_count - row_idx" arbitrary: row_idx t ifs)
  case 0
  then show ?case by (simp add: load_rows_stop)
next
  case (Suc k)
  then have lt: "row_idx < row_count" and k: "k = row_count - Suc row_idx"
    by simp_all
  let ?r = "fst (read_line (m_separator t) ifs column_count)"
  let ?ifs' = "snd (read_line (m_separator t) ifs column_count)"
  let ?t' = "t\<lparr>m_rows := m_rows t @ [?r]\<rparr>"
  have "length (m_header ?t') = column_count"
    using Suc.prems by simp
  from Suc.hyps(1) [OF k this, of ?ifs']
  obtain rs where
    d: "m_rows (snd (load_rows column_count (Suc row_idx) row_count ?t' ?ifs')) = m_rows ?t' @ rs"
    and e: "length rs = row_count - Suc row_idx"
    and f: "\<forall>r \<in> set rs. length r = column_count"
    by blast
  have "m_rows (snd (load_rows column_count row_idx row_count t ifs)) = m_rows t @ (?r # rs)"
    unfolding load_rows_step [OF lt Suc.prems] using d by simp
  moreover have "length (?r # rs) = row_count - row_idx"
    using e lt by simp
  moreover have "\<forall>x \<in> set (?r # rs). length x = column_count"
    using f by (simp add: length_read_line)
  ultimately show ?case by blast
qed

subsection \<open>\<open>load\<close> as a whole\<close>

lemma count_istream_stream_of:
  "fst (count_istream (stream_of bytes) c) = count_list bytes c"
  by (simp add: count_istream_def stream_of_def good_def)

lemma counted_state:
  "content (counted bytes) = bytes \<and> \<not> failbit (counted bytes) \<and> \<not> eofbit (counted bytes)"
  by (simp add: counted_def count_istream_def stream_of_def good_def clear_state_def)

lemma count_columns_first_line:
  assumes "\<not> failbit f"
  shows "fst (count_columns sep f)
           = (if first_line (content f) = [] then 0
              else count_list (first_line (content f)) sep + 1)"
proof -
  have g: "good (seekg_beg f)" and c: "content (seekg_beg f) = content f"
    and p: "gpos (seekg_beg f) = 0"
    using assms by (simp_all add: seekg_beg_def good_def Let_def)
  have "fst (getline (seekg_beg f) [] newline) = first_line (content f)"
    using g c p by (simp add: getline_def Let_def first_line_def)
  then show ?thesis
    by (simp add: count_columns_def Let_def split_beta)
qed

lemma load_opened:
  assumes "files fs filename = Some bytes"
  shows "load t fs filename =
           load_rows (fst (count_columns (m_separator t) (counted bytes))) 0
             (count_list bytes newline)
             (t\<lparr>m_header := fst (read_line (m_separator t)
                    (seekg_beg (snd (count_columns (m_separator t) (counted bytes))))
                    (fst (count_columns (m_separator t) (counted bytes))))\<rparr>)
             (snd (read_line (m_separator t)
                    (seekg_beg (snd (count_columns (m_separator t) (counted bytes))))
                    (fst (count_columns (m_separator t) (counted bytes)))))"
proof -
  obtain n f where ci: "count_istream (stream_of bytes) newline = (n, f)"
    by (cases "count_istream (stream_of bytes) newline")
  have n: "n = count_list bytes newline"
    using count_istream_stream_of [of bytes newline] ci by simp
  show ?thesis
    using assms ci n
    by (simp add: load_def counted_def reserve_def Let_def split: prod.splits)
qed

lemma load_not_opened:
  "files fs filename = None \<Longrightarrow> load t fs filename = (Some (IOError filename), t)"
  by (simp add: load_def)


lemma load_header_length:
  assumes "files fs filename = Some bytes"
  shows "length (m_header (snd (load t fs filename)))
           = fst (count_columns (m_separator t) (counted bytes))"
  unfolding load_opened [OF assms]
  by (simp add: load_rows_header length_read_line)

lemma load_returns:
  assumes "files fs filename = Some bytes"
  shows "fst (load t fs filename) = None"
  unfolding load_opened [OF assms]
  by (rule load_rows_returns) (simp add: length_read_line)

lemma load_appends:
  assumes "files fs filename = Some bytes"
  shows "\<exists>rs. m_rows (snd (load t fs filename)) = m_rows t @ rs
              \<and> length rs = count_list bytes newline"
proof -
  let ?cc = "fst (count_columns (m_separator t) (counted bytes))"
  let ?rl = "read_line (m_separator t)
               (seekg_beg (snd (count_columns (m_separator t) (counted bytes)))) ?cc"
  have "length (m_header (t\<lparr>m_header := fst ?rl\<rparr>)) = ?cc"
    by (simp add: length_read_line)
  from load_rows_rows [OF this, of 0 "count_list bytes newline" "snd ?rl"]
  show ?thesis
    unfolding load_opened [OF assms] by auto
qed

subsection \<open>Unfolding for evaluation on concrete inputs\<close>

lemmas stream_defs =
  stream_of_def good_def clear_state_def seekg_beg_def getline_def count_istream_def

lemmas load_defs =
  load_def count_columns_def reserve_def read_line_def read_fields.simps load_rows.simps

lemmas save_defs =
  save_def write_line_def write_fields.simps

section \<open>The claims\<close>

subsection \<open>C1: saving a table and loading the file again\<close>

text \<open>
  Claim C1 states that the table with header \<open>["a","b","c"]\<close> and rows
  \<open>[["1","2","3"],["4","5","6"]]\<close>, saved and then loaded into a fresh table with the same
  delimiter, comes back with the same header and the same rows. On the code, \<open>save\<close> ends
  every line, the last one too, with a newline; \<open>load\<close> takes the number of newline
  characters for the number of data rows and therefore reads one row more than the file
  holds, a row of three empty fields. The theorem evaluates both calls: the save returns,
  the file holds three newline-terminated lines, and the load returns a table of three rows.
\<close>

theorem save_then_load_extra_row:
  "fst (save \<lparr>m_separator = CHR '','', m_header = [''a'', ''b'', ''c''],
               m_rows = [[''1'', ''2'', ''3''], [''4'', ''5'', ''6'']]\<rparr>
            \<lparr>files = Map.empty, creatable = (\<lambda>p. True)\<rparr> ''t.csv'') = None
   \<and> files (snd (save \<lparr>m_separator = CHR '','', m_header = [''a'', ''b'', ''c''],
                        m_rows = [[''1'', ''2'', ''3''], [''4'', ''5'', ''6'']]\<rparr>
                     \<lparr>files = Map.empty, creatable = (\<lambda>p. True)\<rparr> ''t.csv'')) ''t.csv''
       = Some (''a,b,c'' @ [newline] @ ''1,2,3'' @ [newline] @ ''4,5,6'' @ [newline])
   \<and> load basic_csv
        (snd (save \<lparr>m_separator = CHR '','', m_header = [''a'', ''b'', ''c''],
                     m_rows = [[''1'', ''2'', ''3''], [''4'', ''5'', ''6'']]\<rparr>
                  \<lparr>files = Map.empty, creatable = (\<lambda>p. True)\<rparr> ''t.csv'')) ''t.csv''
       = (None, \<lparr>m_separator = CHR '','', m_header = [''a'', ''b'', ''c''],
                 m_rows = [[''1'', ''2'', ''3''], [''4'', ''5'', ''6''], ['''', '''', '''']]\<rparr>)"
proof -
  have written:
    "save \<lparr>m_separator = CHR '','', m_header = [''a'', ''b'', ''c''],
            m_rows = [[''1'', ''2'', ''3''], [''4'', ''5'', ''6'']]\<rparr>
         \<lparr>files = Map.empty, creatable = (\<lambda>p. True)\<rparr> ''t.csv''
       = (None, \<lparr>files = [''t.csv'' \<mapsto>
                    ''a,b,c'' @ [newline] @ ''1,2,3'' @ [newline] @ ''4,5,6'' @ [newline]],
                 creatable = (\<lambda>p. True)\<rparr>)"
    by (simp add: save_defs)
  have loaded:
    "load basic_csv \<lparr>files = [''t.csv'' \<mapsto>
                    ''a,b,c'' @ [newline] @ ''1,2,3'' @ [newline] @ ''4,5,6'' @ [newline]],
                 creatable = (\<lambda>p. True)\<rparr> ''t.csv''
       = (None, \<lparr>m_separator = CHR '','', m_header = [''a'', ''b'', ''c''],
                 m_rows = [[''1'', ''2'', ''3''], [''4'', ''5'', ''6''], ['''', '''', '''']]\<rparr>)"
    by (simp add: load_defs stream_defs basic_csv_def Let_def eval_nat_numeral)
  show ?thesis
    unfolding written using loaded by simp
qed

subsection \<open>C2: loading a well-formed file\<close>

text \<open>
  Claim C2 states that loading the file with the header line \<open>x,y\<close> and the data lines
  \<open>1,2\<close> and \<open>3,4\<close> gives the header \<open>["x","y"]\<close> and exactly the two rows
  \<open>[["1","2"],["3","4"]]\<close>. The theorem evaluates \<open>load\<close> on that file, each of its three
  lines ended by a newline: the call returns, with the right header, but with a third row
  of two empty fields. The comment at line 176 takes the count of newline characters for
  the number of lines less one; that holds only for a file whose last line has no newline,
  and on that file (second conjunct) the two rows are what \<open>load\<close> stores.
\<close>

theorem load_well_formed_file_extra_row:
  "load basic_csv
     \<lparr>files = [''f.csv'' \<mapsto> ''x,y'' @ [newline] @ ''1,2'' @ [newline] @ ''3,4'' @ [newline]],
      creatable = (\<lambda>p. True)\<rparr> ''f.csv''
     = (None, \<lparr>m_separator = CHR '','', m_header = [''x'', ''y''],
               m_rows = [[''1'', ''2''], [''3'', ''4''], ['''', '''']]\<rparr>)
   \<and> load basic_csv
     \<lparr>files = [''f.csv'' \<mapsto> ''x,y'' @ [newline] @ ''1,2'' @ [newline] @ ''3,4''],
      creatable = (\<lambda>p. True)\<rparr> ''f.csv''
     = (None, \<lparr>m_separator = CHR '','', m_header = [''x'', ''y''],
               m_rows = [[''1'', ''2''], [''3'', ''4'']]\<rparr>)"
  by (simp add: load_defs stream_defs basic_csv_def Let_def eval_nat_numeral)

subsection \<open>C3: loading into a table that already holds rows\<close>

text \<open>
  Claim C3 states that a successful \<open>load\<close> replaces the prior header and the prior rows
  of the table, whatever they were. \<open>load\<close> assigns \<open>m_header\<close> but never empties \<open>m_rows\<close>:
  it pushes the rows of the file behind the rows already stored (lemma \<open>load_appends\<close>
  above, for every table and file). The theorem evaluates \<open>load\<close> on a table with header
  \<open>["p"]\<close> and the row \<open>["q"]\<close> and the file \<open>x,y\<close>, \<open>1,2\<close> (no final newline): the prior
  row is still the first row afterwards, under a header of another width.
\<close>

theorem load_keeps_prior_rows:
  "load \<lparr>m_separator = CHR '','', m_header = [''p''], m_rows = [[''q'']]\<rparr>
     \<lparr>files = [''f.csv'' \<mapsto> ''x,y'' @ [newline] @ ''1,2''], creatable = (\<lambda>p. True)\<rparr>
     ''f.csv''
     = (None, \<lparr>m_separator = CHR '','', m_header = [''x'', ''y''],
               m_rows = [[''q''], [''1'', ''2'']]\<rparr>)"
  by (simp add: load_defs stream_defs Let_def eval_nat_numeral)

subsection \<open>C4: \<open>add_row\<close> with a row of the wrong size\<close>

text \<open>
  Where the sizes agree the row is appended, and where they differ and the table already
  holds a row, \<open>add_row\<close> throws the size error and leaves the rows as they were.
\<close>

lemma add_row_appends:
  "length r = length (m_header t) \<Longrightarrow>
   add_row t r = (None, t\<lparr>m_rows := m_rows t @ [r]\<rparr>)"
  by (simp add: add_row_def)

lemma add_row_mismatch_nonempty:
  "length r \<noteq> length (m_header t) \<Longrightarrow> m_rows t \<noteq> [] \<Longrightarrow>
   (\<exists>a b. fst (add_row t r) = Some (SizeMismatch None a b)) \<and> snd (add_row t r) = t"
  by (simp add: add_row_def)

text \<open>
  Claim C4 states that \<open>add_row\<close> fails with a size error, the rows unchanged, for every
  table and every row whose length differs from the header's. On a table without rows the
  code does not get as far as the \<open>throw\<close>: the message is built from \<open>m_rows.back()\<close>, and
  \<open>back()\<close> on an empty vector is undefined behaviour. The theorem evaluates \<open>add_row\<close> on
  a fresh table with the header \<open>["a","b"]\<close> and the row \<open>["1"]\<close>.
\<close>

theorem add_row_mismatch_empty_table:
  "add_row (set_header basic_csv [''a'', ''b'']) [''1'']
     = (Some OutOfBoundsAccess, set_header basic_csv [''a'', ''b''])"
  by (simp add: add_row_def set_header_def basic_csv_def)

subsection \<open>C5: \<open>row\<close>\<close>

text \<open>
  Claim C5: \<open>row t idx\<close> fails, with the out-of-range error, exactly when \<open>idx\<close> is at least
  the number of stored rows; for every smaller \<open>idx\<close> it returns the row stored at
  position \<open>idx\<close>, counted from 0 over the data rows only.
\<close>

theorem row_index_bounds:
  "(isl (row t idx) \<longleftrightarrow> idx \<ge> length (rows t))
   \<and> (idx \<ge> length (rows t) \<longrightarrow> row t idx = Inl (OutOfRange idx))
   \<and> (idx < length (rows t) \<longrightarrow> row t idx = Inr (rows t ! idx))"
  by (simp add: row_def rows_def)

theorem row_index_bounds_witness:
  "row \<lparr>m_separator = CHR '','', m_header = [''x'', ''y''],
        m_rows = [[''1'', ''2''], [''3'', ''4'']]\<rparr> 2 = Inl (OutOfRange 2)
   \<and> row \<lparr>m_separator = CHR '','', m_header = [''x'', ''y''],
        m_rows = [[''1'', ''2''], [''3'', ''4'']]\<rparr> 7 = Inl (OutOfRange 7)
   \<and> row \<lparr>m_separator = CHR '','', m_header = [''x'', ''y''],
        m_rows = [[''1'', ''2''], [''3'', ''4'']]\<rparr> 1 = Inr [''3'', ''4'']
   \<and> row \<lparr>m_separator = CHR '','', m_header = [''x'', ''y''],
        m_rows = [[''1'', ''2''], [''3'', ''4'']]\<rparr> 0 = Inr [''1'', ''2'']"
  using
    row_index_bounds [of "\<lparr>m_separator = CHR '','', m_header = [''x'', ''y''],
        m_rows = [[''1'', ''2''], [''3'', ''4'']]\<rparr>" 2]
    row_index_bounds [of "\<lparr>m_separator = CHR '','', m_header = [''x'', ''y''],
        m_rows = [[''1'', ''2''], [''3'', ''4'']]\<rparr>" 7]
    row_index_bounds [of "\<lparr>m_separator = CHR '','', m_header = [''x'', ''y''],
        m_rows = [[''1'', ''2''], [''3'', ''4'']]\<rparr>" 1]
    row_index_bounds [of "\<lparr>m_separator = CHR '','', m_header = [''x'', ''y''],
        m_rows = [[''1'', ''2''], [''3'', ''4'']]\<rparr>" 0]
  by (simp add: rows_def)

subsection \<open>C6: \<open>clear\<close>\<close>

text \<open>
  Claim C6: after \<open>clear\<close> the header and the rows are empty and the delimiter is the one
  the table had, so the table equals the table just constructed with that delimiter,
  whatever it held before.
\<close>

theorem clear_resets:
  "header (clear t) = [] \<and> rows (clear t) = []
   \<and> m_separator (clear t) = m_separator t
   \<and> clear t = basic_csv_sep (m_separator t)"
  by (cases t) (simp add: clear_def header_def rows_def basic_csv_sep_def Let_def)

subsection \<open>C7: a data line with too few fields\<close>

text \<open>
  Claim C7 states that \<open>load\<close> fails with a size error on a file whose second data line
  has one field where the header has two. The loop of \<open>load\<close> has the check and the
  message for it, but \<open>read_line\<close> builds every row with \<open>column_count\<close> fields before it
  parses, so the check compares \<open>column_count\<close> with itself. The theorem evaluates \<open>load\<close>
  on header \<open>x,y\<close>, first data line \<open>1,2\<close>, second data line \<open>3\<close>, with and without a final
  newline: both calls return normally and store the short line as \<open>["3",""]\<close>.
\<close>

theorem load_short_line_succeeds:
  "load basic_csv
     \<lparr>files = [''f.csv'' \<mapsto> ''x,y'' @ [newline] @ ''1,2'' @ [newline] @ ''3''],
      creatable = (\<lambda>p. True)\<rparr> ''f.csv''
     = (None, \<lparr>m_separator = CHR '','', m_header = [''x'', ''y''],
               m_rows = [[''1'', ''2''], [''3'', '''']]\<rparr>)
   \<and> load basic_csv
     \<lparr>files = [''f.csv'' \<mapsto> ''x,y'' @ [newline] @ ''1,2'' @ [newline] @ ''3'' @ [newline]],
      creatable = (\<lambda>p. True)\<rparr> ''f.csv''
     = (None, \<lparr>m_separator = CHR '','', m_header = [''x'', ''y''],
               m_rows = [[''1'', ''2''], [''3'', ''''], ['''', '''']]\<rparr>)"
  by (simp add: load_defs stream_defs basic_csv_def Let_def eval_nat_numeral)

subsection \<open>C8: the column count\<close>

text \<open>
  Claim C8: during \<open>load\<close> the column count comes from the first line alone. It is the
  number of delimiter characters in the first line plus one when that line is not empty,
  and zero when it is empty. The first conjunct is about the count that lines 183 to 185
  compute, the second about the header that \<open>load\<close> stores, which has that many fields.
\<close>

theorem load_column_count:
  assumes "files fs filename = Some bytes"
  shows "fst (count_columns (m_separator t) (counted bytes))
           = (if first_line bytes = [] then 0
              else count_list (first_line bytes) (m_separator t) + 1)
         \<and> length (header (snd (load t fs filename)))
           = (if first_line bytes = [] then 0
              else count_list (first_line bytes) (m_separator t) + 1)"
  using count_columns_first_line [of "counted bytes" "m_separator t"]
    load_header_length [OF assms, of t] counted_state [of bytes]
  by (simp add: header_def)

theorem load_column_count_witness:
  "files \<lparr>files = [''f.csv'' \<mapsto> ''x,y,z'' @ [newline] @ ''1,2''],
          creatable = (\<lambda>p. True)\<rparr> ''f.csv'' = Some (''x,y,z'' @ [newline] @ ''1,2'')
   \<and> fst (count_columns (m_separator basic_csv)
            (counted (''x,y,z'' @ [newline] @ ''1,2''))) = 3
   \<and> length (header (snd (load basic_csv
        \<lparr>files = [''f.csv'' \<mapsto> ''x,y,z'' @ [newline] @ ''1,2''],
         creatable = (\<lambda>p. True)\<rparr> ''f.csv''))) = 3"
  using load_column_count
    [of "\<lparr>files = [''f.csv'' \<mapsto> ''x,y,z'' @ [newline] @ ''1,2''],
          creatable = (\<lambda>p. True)\<rparr>" "''f.csv''" "''x,y,z'' @ [newline] @ ''1,2''" basic_csv]
  by (simp add: first_line_def basic_csv_def)

subsection \<open>C9: \<open>read_line\<close> returns \<open>column_count\<close> fields\<close>

text \<open>
  Claim C9: for every stream state and every \<open>column_count\<close>, \<open>read_line\<close> returns a row
  of exactly \<open>column_count\<close> fields; the fields for which the line has no text are empty
  strings (every field whose index is above the number of separators in the line that was
  read); and \<open>load\<close>, which reads the header and the rows with one \<open>column_count\<close>, never
  ends in its size-mismatch error, for any table, file system and file name.
\<close>

theorem read_line_column_count:
  "length (fst (read_line sep ifs column_count)) = column_count
   \<and> (\<forall>j < column_count. count_list (fst (getline ifs [] newline)) sep < j
          \<longrightarrow> fst (read_line sep ifs column_count) ! j = [])
   \<and> (\<forall>idx a b. fst (load t fs filename) \<noteq> Some (SizeMismatch idx a b))"
proof (intro conjI allI impI)
  show "length (fst (read_line sep ifs column_count)) = column_count"
    by (rule length_read_line)
next
  fix j assume "j < column_count" "count_list (fst (getline ifs [] newline)) sep < j"
  then show "fst (read_line sep ifs column_count) ! j = []"
    by (simp add: read_line_padding)
next
  fix idx a b
  show "fst (load t fs filename) \<noteq> Some (SizeMismatch idx a b)"
  proof (cases "files fs filename")
    case None
    then show ?thesis by (simp add: load_not_opened)
  next
    case (Some bytes)
    then show ?thesis by (simp add: load_returns)
  qed
qed

theorem read_line_column_count_witness:
  "(2::nat) < 3
   \<and> count_list (fst (getline (stream_of (''5,6'' @ [newline] @ ''7'')) [] newline)) CHR '','' < 2
   \<and> length (fst (read_line CHR '','' (stream_of (''5,6'' @ [newline] @ ''7'')) 3)) = 3
   \<and> fst (read_line CHR '','' (stream_of (''5,6'' @ [newline] @ ''7'')) 3) ! 2 = []
   \<and> fst (load basic_csv
        \<lparr>files = [''f.csv'' \<mapsto> ''5,6'' @ [newline] @ ''7''], creatable = (\<lambda>p. True)\<rparr>
        ''f.csv'') \<noteq> Some (SizeMismatch (Some 0) 1 2)"
proof -
  have sep_count:
    "count_list (fst (getline (stream_of (''5,6'' @ [newline] @ ''7'')) [] newline)) CHR '','' < 2"
    by (simp add: getline_def stream_of_def good_def)
  show ?thesis
    using sep_count
      read_line_column_count
        [of "CHR '',''" "stream_of (''5,6'' @ [newline] @ ''7'')" 3 basic_csv
            "\<lparr>files = [''f.csv'' \<mapsto> ''5,6'' @ [newline] @ ''7''],
              creatable = (\<lambda>p. True)\<rparr>" "''f.csv''"]
    by simp
qed

subsection \<open>C10: the failure path of \<open>add_row\<close>\<close>

text \<open>
  Claim C10: when \<open>add_row\<close> rejects a row, the size it reports is the size of the last
  stored row, not the size of the rejected row, so the outcome is the same for every
  rejected row; and on a table without rows the rejected call reads the last element of
  an empty vector before anything is thrown.
\<close>

theorem add_row_reports_last_row:
  assumes "length r \<noteq> length (m_header t)"
  shows "(m_rows t \<noteq> [] \<longrightarrow>
            add_row t r = (Some (SizeMismatch None (length (last (m_rows t)))
                                   (length (m_header t))), t))
         \<and> (m_rows t = [] \<longrightarrow> add_row t r = (Some OutOfBoundsAccess, t))
         \<and> (\<forall>r'. length r' \<noteq> length (m_header t) \<longrightarrow> add_row t r' = add_row t r)"
  using assms by (simp add: add_row_def)

theorem add_row_reports_last_row_witness:
  "length [''9''] \<noteq> length (m_header \<lparr>m_separator = CHR '','', m_header = [''a'', ''b''],
                                      m_rows = [[''1'', ''2'']]\<rparr>)
   \<and> add_row \<lparr>m_separator = CHR '','', m_header = [''a'', ''b''], m_rows = [[''1'', ''2'']]\<rparr>
        [''9'']
       = (Some (SizeMismatch None 2 2),
          \<lparr>m_separator = CHR '','', m_header = [''a'', ''b''], m_rows = [[''1'', ''2'']]\<rparr>)
   \<and> add_row \<lparr>m_separator = CHR '','', m_header = [''a'', ''b''], m_rows = [[''1'', ''2'']]\<rparr>
        [''7'', ''8'', ''9'']
       = add_row \<lparr>m_separator = CHR '','', m_header = [''a'', ''b''], m_rows = [[''1'', ''2'']]\<rparr>
        [''9'']
   \<and> add_row \<lparr>m_separator = CHR '','', m_header = [''a'', ''b''], m_rows = []\<rparr> [''9'']
       = (Some OutOfBoundsAccess,
          \<lparr>m_separator = CHR '','', m_header = [''a'', ''b''], m_rows = []\<rparr>)"
  using
    add_row_reports_last_row
      [of "[''9'']" "\<lparr>m_separator = CHR '','', m_header = [''a'', ''b''],
                       m_rows = [[''1'', ''2'']]\<rparr>"]
    add_row_reports_last_row
      [of "[''9'']" "\<lparr>m_separator = CHR '','', m_header = [''a'', ''b''], m_rows = []\<rparr>"]
  by simp

end
